theory Spec2Isabelle
  imports Main "HOL-Library.Multiset" "HOL-Library.Sublist" "HOL-Library.AList"
begin

section \<open>Tasks (the Task class hierarchy)\<close>

text \<open>
  JavaScript strings are modelled as \<open>string\<close>: a list of code units, each below 256
  (the Latin-1 range, which holds every literal of the sources). The literals of the
  sources with an accented letter are written with the code unit spelled out.
  Identifiers are integers compared with \<open>===\<close>; a creation date is the integer that
  \<open>getTime()\<close> returns (milliseconds).
\<close>

datatype task_class = Task | PersonalTask | WorkTask | StudyTask | VolunteerTask

record task =
  task_class :: task_class
  task_id :: int
  task_title :: string
  task_description :: string
  task_status :: string
  task_createdAt :: int

definition Task_getId :: "task \<Rightarrow> int" where
  "Task_getId t = task_id t"

definition Task_getTitle :: "task \<Rightarrow> string" where
  "Task_getTitle t = task_title t"

definition Task_getDescription :: "task \<Rightarrow> string" where
  "Task_getDescription t = task_description t"

definition Task_getStatus :: "task \<Rightarrow> string" where
  "Task_getStatus t = task_status t"

definition Task_getCreatedAt :: "task \<Rightarrow> int" where
  "Task_getCreatedAt t = task_createdAt t"

text \<open>\<open>getType\<close> is overridden per class; the labels are the Portuguese ones of the source.\<close>

fun Task_getType :: "task \<Rightarrow> string" where
  "Task_getType t =
     (case task_class t of
        Task \<Rightarrow> ''Tarefa Gen'' @ [CHR 0xE9] @ ''rica''
      | PersonalTask \<Rightarrow> ''Pessoal''
      | WorkTask \<Rightarrow> ''Trabalho''
      | StudyTask \<Rightarrow> ''Estudo''
      | VolunteerTask \<Rightarrow> ''Trabalho Volunt'' @ [CHR 0xE1] @ ''rio'')"

section \<open>The composite task tree\<close>

text \<open>
  A \<open>TaskLeaf\<close> keeps the id and the title it copied from its task at construction and
  the task itself; a \<open>TaskGroup\<close> keeps id, title, children, color, expansion flag and
  creation date. The tree is a value: no component is shared between two parents.
\<close>

datatype component =
    TaskLeaf int string task
  | TaskGroup int string "component list" string bool int

definition new_TaskLeaf :: "task \<Rightarrow> component" where
  "new_TaskLeaf t = TaskLeaf (Task_getId t) (Task_getTitle t) t"

text \<open>The constructor of a group: no children, expanded, created at \<open>now\<close>.\<close>

definition new_TaskGroup :: "int \<Rightarrow> string \<Rightarrow> string \<Rightarrow> int \<Rightarrow> component" where
  "new_TaskGroup i ttl color now = TaskGroup i ttl [] color True now"

text \<open>
  \<open>TaskGroupFactory.createGroup\<close>: the next id of the factory's counter, which is
  returned with the group. Task ids come from elsewhere, so a task and a group can have
  the same id.
\<close>

definition createGroup :: "string \<Rightarrow> string \<Rightarrow> int \<Rightarrow> int \<Rightarrow> component \<times> int" where
  "createGroup ttl color now lastGroupId =
     (new_TaskGroup (lastGroupId + 1) ttl color now, lastGroupId + 1)"

fun getId :: "component \<Rightarrow> int" where
  "getId (TaskLeaf i ttl t) = i"
| "getId (TaskGroup i ttl cs color ex cr) = i"

fun isComposite :: "component \<Rightarrow> bool" where
  "isComposite (TaskLeaf i ttl t) = False"
| "isComposite (TaskGroup i ttl cs color ex cr) = True"

fun children :: "component \<Rightarrow> component list" where
  "children (TaskGroup i ttl cs color ex cr) = cs"
| "children (TaskLeaf i ttl t) = []"

text \<open>\<open>add\<close>: a group appends the component and answers true, a leaf answers false.\<close>

fun add :: "component \<Rightarrow> component \<Rightarrow> bool \<times> component" where
  "add c (TaskLeaf i ttl t) = (False, TaskLeaf i ttl t)"
| "add c (TaskGroup i ttl cs color ex cr) = (True, TaskGroup i ttl (cs @ [c]) color ex cr)"

text \<open>
  \<open>getTaskCount\<close>: 1 on a leaf; on a group the \<open>reduce\<close> over the children, from 0.
\<close>

fun getTaskCount :: "component \<Rightarrow> nat" where
  "getTaskCount (TaskLeaf i ttl t) = 1"
| "getTaskCount (TaskGroup i ttl cs color ex cr) =
     fold (\<lambda>child total. total + getTaskCount child) cs 0"

text \<open>
  \<open>getAllLeaves\<close> exists on groups only (a leaf has no such method, and the loop calls
  it on composite children only): the \<open>forEach\<close> either concatenates the leaves of a
  child group or pushes the child.
\<close>

fun getAllLeaves :: "component \<Rightarrow> component list" where
  "getAllLeaves (TaskGroup i ttl cs color ex cr) =
     fold (\<lambda>child leaves.
             if isComposite child then leaves @ getAllLeaves child
             else leaves @ [child]) cs []"

text \<open>
  \<open>getChild\<close>: null on a leaf. On a group the loop looks at each child in turn: the
  child itself first, then, when the child is a group, the whole subtree of that child,
  before it moves to the next child. \<open>None\<close> is null.
\<close>

fun getChild :: "int \<Rightarrow> component \<Rightarrow> component option"
  and getChild_loop :: "int \<Rightarrow> component list \<Rightarrow> component option" where
  "getChild k (TaskLeaf i ttl t) = None"
| "getChild k (TaskGroup i ttl cs color ex cr) = getChild_loop k cs"
| "getChild_loop k [] = None"
| "getChild_loop k (child # rest) =
     (if getId child = k then Some child
      else if isComposite child then
        (case getChild k child of
           Some result \<Rightarrow> Some result
         | None \<Rightarrow> getChild_loop k rest)
      else getChild_loop k rest)"

text \<open>
  \<open>remove\<close> mutates the tree in place and answers a boolean; the model returns the
  boolean and the tree after the call. A leaf answers false. A group first filters its
  direct children; when nothing was filtered out it asks each child group in turn, and
  stops at the first that answers true.
\<close>

function remove :: "int \<Rightarrow> component \<Rightarrow> bool \<times> component"
  and remove_loop :: "int \<Rightarrow> component list \<Rightarrow> bool \<times> component list" where
  "remove k (TaskLeaf i ttl t) = (False, TaskLeaf i ttl t)"
| "remove k (TaskGroup i ttl cs color ex cr) =
     (if length (filter (\<lambda>child. getId child \<noteq> k) cs) = length cs then
        (case remove_loop k (filter (\<lambda>child. getId child \<noteq> k) cs) of
           (b, cs') \<Rightarrow> (b, TaskGroup i ttl cs' color ex cr))
      else (True, TaskGroup i ttl (filter (\<lambda>child. getId child \<noteq> k) cs) color ex cr))"
| "remove_loop k [] = (False, [])"
| "remove_loop k (child # rest) =
     (if isComposite child then
        (case remove k child of
           (b, child') \<Rightarrow>
             if b then (True, child' # rest)
             else (case remove_loop k rest of (b', rest') \<Rightarrow> (b', child' # rest')))
      else (case remove_loop k rest of (b', rest') \<Rightarrow> (b', child # rest')))"
  by pat_completeness auto
termination
proof (relation "measure (\<lambda>x. case x of Inl (k, c) \<Rightarrow> size c | Inr (k, cs) \<Rightarrow> size_list size cs)")
  have le: "size_list size (filter P xs) \<le> size_list size xs"
    for P and xs :: "component list"
    by (induction xs) auto
  fix k :: int and i ttl and cs :: "component list" and color ex cr
  show "(Inr (k, filter (\<lambda>child. getId child \<noteq> k) cs),
         Inl (k, TaskGroup i ttl cs color ex cr))
        \<in> measure (\<lambda>x. case x of Inl (k, c) \<Rightarrow> size c | Inr (k, cs) \<Rightarrow> size_list size cs)"
    using le [of "\<lambda>child. getId child \<noteq> k" cs] by simp
qed auto

text \<open>The ids of the components below a component, and of the whole tree.\<close>

fun descendant_ids :: "component \<Rightarrow> int list"
  and ids_of_list :: "component list \<Rightarrow> int list" where
  "descendant_ids (TaskLeaf i ttl t) = []"
| "descendant_ids (TaskGroup i ttl cs color ex cr) = ids_of_list cs"
| "ids_of_list [] = []"
| "ids_of_list (c # cs) = getId c # descendant_ids c @ ids_of_list cs"

definition component_ids :: "component \<Rightarrow> int list" where
  "component_ids c = getId c # descendant_ids c"

text \<open>
  The reading of the claim about \<open>getChild\<close>, word for word: all direct children are
  compared first, and only when none matches are the child groups searched, in sequence
  order. It is compared with \<open>getChild\<close> below.
\<close>

fun getChild_direct_first :: "int \<Rightarrow> component \<Rightarrow> component option"
  and search_groups :: "int \<Rightarrow> component list \<Rightarrow> component option" where
  "getChild_direct_first k (TaskLeaf i ttl t) = None"
| "getChild_direct_first k (TaskGroup i ttl cs color ex cr) =
     (case find (\<lambda>child. getId child = k) cs of
        Some child \<Rightarrow> Some child
      | None \<Rightarrow> search_groups k cs)"
| "search_groups k [] = None"
| "search_groups k (child # rest) =
     (if isComposite child then
        (case getChild_direct_first k child of
           Some result \<Rightarrow> Some result
         | None \<Rightarrow> search_groups k rest)
      else search_groups k rest)"

text \<open>
  The components below a component in pre-order: each child, then what lies below that
  child, then the next child.
\<close>

fun descendants :: "component \<Rightarrow> component list"
  and descendants_of_list :: "component list \<Rightarrow> component list" where
  "descendants (TaskLeaf i ttl t) = []"
| "descendants (TaskGroup i ttl cs color ex cr) = descendants_of_list cs"
| "descendants_of_list [] = []"
| "descendants_of_list (c # cs) = c # descendants c @ descendants_of_list cs"

section \<open>The JavaScript library, as far as the sources use it\<close>

datatype error = TypeError

text \<open>
  An object literal inherits the members of \<open>Object.prototype\<close>. Reading a property of
  such an object finds the object's own property, or else the inherited member of that
  name, or else \<open>undefined\<close> (\<open>None\<close>). Every inherited member is a function, or for
  \<open>__proto__\<close> the prototype object itself: none is falsy, and none is a number.
\<close>

definition Object_prototype_keys :: "string list" where
  "Object_prototype_keys =
     [''constructor'', ''__defineGetter__'', ''__defineSetter__'', ''hasOwnProperty'',
      ''__lookupGetter__'', ''__lookupSetter__'', ''isPrototypeOf'',
      ''propertyIsEnumerable'', ''toString'', ''valueOf'', ''__proto__'',
      ''toLocaleString'']"

datatype 'a property = Own 'a | Inherited string

text \<open>\<open>obj[key]\<close>; \<open>proto\<close> tells whether the object still has \<open>Object.prototype\<close>.\<close>

fun get_property :: "bool \<Rightarrow> (string \<times> 'a) list \<Rightarrow> string \<Rightarrow> 'a property option" where
  "get_property proto obj key =
     (case map_of obj key of
        Some v \<Rightarrow> Some (Own v)
      | None \<Rightarrow> if proto \<and> key \<in> set Object_prototype_keys then Some (Inherited key) else None)"

text \<open>\<open>key in obj\<close>.\<close>

fun has_property :: "bool \<Rightarrow> (string \<times> 'a) list \<Rightarrow> string \<Rightarrow> bool" where
  "has_property proto obj key =
     (case map_of obj key of
        Some v \<Rightarrow> True
      | None \<Rightarrow> proto \<and> key \<in> set Object_prototype_keys)"

text \<open>
  \<open>String.prototype.toLowerCase\<close> on code units below 256: the letters A to Z and the
  capital letters of Latin-1 (0xC0 to 0xDE, but not the multiplication sign 0xD7) move
  up by 32.
\<close>

definition toLowerCase_unit :: "char \<Rightarrow> char" where
  "toLowerCase_unit c =
     (let n = (of_char c :: nat) in
      if (65 \<le> n \<and> n \<le> 90) \<or> (192 \<le> n \<and> n \<le> 214) \<or> (216 \<le> n \<and> n \<le> 222)
      then char_of (n + 32) else c)"

definition toLowerCase :: "string \<Rightarrow> string" where
  "toLowerCase s = map toLowerCase_unit s"

text \<open>\<open>s.startsWith(p)\<close> and \<open>s.includes(x)\<close>.\<close>

definition String_startsWith :: "string \<Rightarrow> string \<Rightarrow> bool" where
  "String_startsWith s p = prefix p s"

fun String_includes :: "string \<Rightarrow> string \<Rightarrow> bool" where
  "String_includes [] x = (x = [])"
| "String_includes (c # s) x = (prefix x (c # s) \<or> String_includes s x)"

text \<open>\<open>s.split(sep)\<close> for a separator of one code unit: never the empty array.\<close>

fun String_split :: "char \<Rightarrow> string \<Rightarrow> string list" where
  "String_split sep [] = [[]]"
| "String_split sep (c # s) =
     (if c = sep then [] # String_split sep s
      else (case String_split sep s of
              seg # segs \<Rightarrow> (c # seg) # segs
            | [] \<Rightarrow> [[c]]))"

text \<open>\<open>xs[i]\<close> on an array: \<open>undefined\<close> (\<open>None\<close>) out of range.\<close>

definition Array_index :: "'a list \<Rightarrow> nat \<Rightarrow> 'a option" where
  "Array_index xs i = (if i < length xs then Some (xs ! i) else None)"

text \<open>
  Arrays are objects with an identity: a store maps each array reference to the
  array's elements, and a new array takes the next free reference. Tasks are the
  elements; no operation below writes to a task.
\<close>

type_synonym ref = nat
type_synonym store = "task list list"

definition new_Array :: "task list \<Rightarrow> store \<Rightarrow> ref \<times> store" where
  "new_Array xs h = (length h, h @ [xs])"

text \<open>\<open>tasks.filter(p)\<close> builds a new array; \<open>[...tasks]\<close> copies into a new array.\<close>

definition Array_filter :: "(task \<Rightarrow> bool) \<Rightarrow> store \<Rightarrow> ref \<Rightarrow> ref \<times> store" where
  "Array_filter p h r = new_Array (filter p (h ! r)) h"

definition Array_spread :: "store \<Rightarrow> ref \<Rightarrow> ref \<times> store" where
  "Array_spread h r = new_Array (h ! r) h"

text \<open>
  \<open>Array.prototype.sort\<close> with a comparator sorts the array in place and returns the
  same array. A comparator result is a number or NaN (\<open>None\<close>); the language reads NaN
  as +0. The sort is stable: the model is the insertion sort that puts an element
  before the first later element it does not compare greater than. (For a comparator
  that is not a consistent order the language leaves the order to the engine; the model
  is one such engine.)
\<close>

definition SortCompare :: "('a \<Rightarrow> 'a \<Rightarrow> int option) \<Rightarrow> 'a \<Rightarrow> 'a \<Rightarrow> int" where
  "SortCompare comparefn x y = (case comparefn x y of None \<Rightarrow> 0 | Some v \<Rightarrow> v)"

fun insert_sorted :: "('a \<Rightarrow> 'a \<Rightarrow> int option) \<Rightarrow> 'a \<Rightarrow> 'a list \<Rightarrow> 'a list" where
  "insert_sorted comparefn x [] = [x]"
| "insert_sorted comparefn x (y # ys) =
     (if SortCompare comparefn x y \<le> 0 then x # y # ys
      else y # insert_sorted comparefn x ys)"

definition sorted_by :: "('a \<Rightarrow> 'a \<Rightarrow> int option) \<Rightarrow> 'a list \<Rightarrow> 'a list" where
  "sorted_by comparefn xs = foldr (insert_sorted comparefn) xs []"

definition Array_sort :: "(task \<Rightarrow> task \<Rightarrow> int option) \<Rightarrow> store \<Rightarrow> ref \<Rightarrow> ref \<times> store" where
  "Array_sort comparefn h r = (r, h[r := sorted_by comparefn (h ! r)])"

text \<open>
  Subtraction of two numbers read from a table: a missing entry is \<open>undefined\<close> and an
  inherited member is a function, and either makes the difference NaN.
\<close>

fun minus_entries :: "int property option \<Rightarrow> int property option \<Rightarrow> int option" where
  "minus_entries (Some (Own a)) (Some (Own b)) = Some (a - b)"
| "minus_entries x y = None"

section \<open>Sort and filter strategies\<close>

datatype sort_strategy =
    DateNewestFirstStrategy
  | DateOldestFirstStrategy
  | AlphabeticalAZStrategy
  | AlphabeticalZAStrategy
  | StatusPendingFirstStrategy
  | StatusCompletedFirstStrategy
  | TaskTypeStrategy

definition statusOrder_pending :: "(string \<times> int) list" where
  "statusOrder_pending =
     [(''Pendente'', 0), (''Em Andamento'', 1), (''Conclu'' @ [CHR 0xED] @ ''da'', 2)]"

definition statusOrder_completed :: "(string \<times> int) list" where
  "statusOrder_completed =
     [(''Conclu'' @ [CHR 0xED] @ ''da'', 0), (''Em Andamento'', 1), (''Pendente'', 2)]"

text \<open>
  The comparator of each sort strategy. \<open>localeCompare\<close> depends on the locale of the
  engine and is a parameter; it returns a number.
\<close>

fun comparator ::
  "(string \<Rightarrow> string \<Rightarrow> int) \<Rightarrow> sort_strategy \<Rightarrow> task \<Rightarrow> task \<Rightarrow> int option" where
  "comparator localeCompare DateNewestFirstStrategy a b =
     Some (Task_getCreatedAt b - Task_getCreatedAt a)"
| "comparator localeCompare DateOldestFirstStrategy a b =
     Some (Task_getCreatedAt a - Task_getCreatedAt b)"
| "comparator localeCompare AlphabeticalAZStrategy a b =
     Some (localeCompare (Task_getTitle a) (Task_getTitle b))"
| "comparator localeCompare AlphabeticalZAStrategy a b =
     Some (localeCompare (Task_getTitle b) (Task_getTitle a))"
| "comparator localeCompare StatusPendingFirstStrategy a b =
     minus_entries (get_property True statusOrder_pending (Task_getStatus a))
                   (get_property True statusOrder_pending (Task_getStatus b))"
| "comparator localeCompare StatusCompletedFirstStrategy a b =
     minus_entries (get_property True statusOrder_completed (Task_getStatus a))
                   (get_property True statusOrder_completed (Task_getStatus b))"
| "comparator localeCompare TaskTypeStrategy a b =
     Some (localeCompare (Task_getType a) (Task_getType b))"

text \<open>Every sort strategy copies the array and sorts the copy.\<close>

definition SortStrategy_sort ::
  "(string \<Rightarrow> string \<Rightarrow> int) \<Rightarrow> sort_strategy \<Rightarrow> store \<Rightarrow> ref \<Rightarrow> ref \<times> store" where
  "SortStrategy_sort localeCompare s h r =
     (case Array_spread h r of
        (r', h') \<Rightarrow> Array_sort (comparator localeCompare s) h' r')"

text \<open>
  The filter strategies. A type filter holds the type it was built with, which is
  \<open>undefined\<close> (\<open>None\<close>) when the constructor got no string; a search filter holds the
  search text, lowercased by the constructor.
\<close>

datatype filter_strategy =
    ShowAllFilterStrategy
  | PendingFilterStrategy
  | InProgressFilterStrategy
  | CompletedFilterStrategy
  | TypeFilterStrategy "string option"
  | SearchFilterStrategy string

text \<open>
  \<open>new SearchFilterStrategy(searchText)\<close>: \<open>undefined.toLowerCase()\<close> is a TypeError.
\<close>

fun new_SearchFilterStrategy :: "string option \<Rightarrow> error + filter_strategy" where
  "new_SearchFilterStrategy None = Inl TypeError"
| "new_SearchFilterStrategy (Some searchText) = Inr (SearchFilterStrategy (toLowerCase searchText))"

text \<open>The predicate of a search filter on one task.\<close>

definition search_matches :: "string \<Rightarrow> task \<Rightarrow> bool" where
  "search_matches searchText t =
     (String_includes (toLowerCase (Task_getTitle t)) searchText
      \<or> String_includes (toLowerCase (Task_getDescription t)) searchText)"

text \<open>\<open>filter\<close>: the show-all strategy returns the array it was given, the others a new array.\<close>

fun FilterStrategy_filter :: "filter_strategy \<Rightarrow> store \<Rightarrow> ref \<Rightarrow> ref \<times> store" where
  "FilterStrategy_filter ShowAllFilterStrategy h r = (r, h)"
| "FilterStrategy_filter PendingFilterStrategy h r =
     Array_filter (\<lambda>t. Task_getStatus t = ''Pendente'') h r"
| "FilterStrategy_filter InProgressFilterStrategy h r =
     Array_filter (\<lambda>t. Task_getStatus t = ''Em Andamento'') h r"
| "FilterStrategy_filter CompletedFilterStrategy h r =
     Array_filter (\<lambda>t. Task_getStatus t = ''Conclu'' @ [CHR 0xED] @ ''da'') h r"
| "FilterStrategy_filter (TypeFilterStrategy type) h r =
     Array_filter (\<lambda>t. Some (Task_getType t) = type) h r"
| "FilterStrategy_filter (SearchFilterStrategy searchText) h r =
     Array_filter (search_matches searchText) h r"

section \<open>The context: TaskSorterFilterer\<close>

text \<open>
  The two registries are object literals that no method changes. The current
  strategies are whatever the setters read from a registry: a strategy (\<open>Own\<close>) or an
  inherited member of \<open>Object.prototype\<close> (\<open>Inherited\<close>), which has neither a
  \<open>sort\<close> nor a \<open>filter\<close> method.
\<close>

definition sortStrategies :: "(string \<times> sort_strategy) list" where
  "sortStrategies =
     [(''date-newest'', DateNewestFirstStrategy),
      (''date-oldest'', DateOldestFirstStrategy),
      (''alpha-az'', AlphabeticalAZStrategy),
      (''alpha-za'', AlphabeticalZAStrategy),
      (''status-pending'', StatusPendingFirstStrategy),
      (''status-complete'', StatusCompletedFirstStrategy),
      (''type'', TaskTypeStrategy)]"

definition filterStrategies :: "(string \<times> filter_strategy) list" where
  "filterStrategies =
     [(''all'', ShowAllFilterStrategy),
      (''pending'', PendingFilterStrategy),
      (''in-progress'', InProgressFilterStrategy),
      (''completed'', CompletedFilterStrategy)]"

record TaskSorterFilterer =
  currentSortStrategy :: "sort_strategy property"
  currentFilterStrategy :: "filter_strategy property"

definition new_TaskSorterFilterer :: TaskSorterFilterer where
  "new_TaskSorterFilterer =
     \<lparr>currentSortStrategy = Own DateNewestFirstStrategy,
      currentFilterStrategy = Own ShowAllFilterStrategy\<rparr>"

fun setSortStrategy :: "string \<Rightarrow> TaskSorterFilterer \<Rightarrow> bool \<times> TaskSorterFilterer" where
  "setSortStrategy strategyKey this =
     (case get_property True sortStrategies strategyKey of
        Some v \<Rightarrow> (True, this\<lparr>currentSortStrategy := v\<rparr>)
      | None \<Rightarrow> (False, this))"

fun setFilterStrategy ::
  "string \<Rightarrow> TaskSorterFilterer \<Rightarrow> error + bool \<times> TaskSorterFilterer" where
  "setFilterStrategy strategyKey this =
     (case get_property True filterStrategies strategyKey of
        Some v \<Rightarrow> Inr (True, this\<lparr>currentFilterStrategy := v\<rparr>)
      | None \<Rightarrow>
          if String_startsWith strategyKey ''type:'' then
            Inr (True, this\<lparr>currentFilterStrategy :=
                   Own (TypeFilterStrategy (Array_index (String_split CHR '':'' strategyKey) 1))\<rparr>)
          else if String_startsWith strategyKey ''search:'' then
            (case new_SearchFilterStrategy (Array_index (String_split CHR '':'' strategyKey) 1) of
               Inl e \<Rightarrow> Inl e
             | Inr f \<Rightarrow> Inr (True, this\<lparr>currentFilterStrategy := Own f\<rparr>))
          else Inr (False, this))"

text \<open>
  \<open>process\<close>: the filter first, then the sort on what the filter returned. The result
  is the reference of the returned array, or the TypeError of calling a method that the
  current strategy does not have, and the store after the call.
\<close>

fun process ::
  "(string \<Rightarrow> string \<Rightarrow> int) \<Rightarrow> TaskSorterFilterer \<Rightarrow> store \<Rightarrow> ref \<Rightarrow> (error + ref) \<times> store" where
  "process localeCompare this h tasks =
     (case currentFilterStrategy this of
        Inherited name \<Rightarrow> (Inl TypeError, h)
      | Own f \<Rightarrow>
          (case FilterStrategy_filter f h tasks of
             (filteredTasks, h1) \<Rightarrow>
               (case currentSortStrategy this of
                  Inherited name \<Rightarrow> (Inl TypeError, h1)
                | Own s \<Rightarrow>
                    (case SortStrategy_sort localeCompare s h1 filteredTasks of
                       (sortedTasks, h2) \<Rightarrow> (Inr sortedTasks, h2)))))"

section \<open>The configuration store: ConfigurationManager\<close>

text \<open>
  The values a caller stores are the primitive values and \<open>null\<close>. The state of the
  manager is the \<open>config\<close> object (its own properties in insertion order, and whether
  it still has \<open>Object.prototype\<close> as its prototype) and the \<open>configChanged\<close> events
  dispatched so far, each with the key and the value of its detail. \<open>applyConfig\<close>
  reads the configuration and writes to the document only, which is outside the state.
\<close>

datatype jsval = JString string | JBoolean bool | JNumber int | JUndefined | JNull

record ConfigurationManager =
  config :: "(string \<times> jsval) list"
  config_proto :: bool
  dispatched :: "(string \<times> jsval) list"

definition default_config :: "(string \<times> jsval) list" where
  "default_config =
     [(''theme'', JString ''light''),
      (''language'', JString ''pt-BR''),
      (''showCompletedTasks'', JBoolean True),
      (''autoSave'', JBoolean True),
      (''notificationTimeout'', JNumber 3000),
      (''maxNotificationsHistory'', JNumber 10),
      (''defaultTaskColor'', JString ''blue''),
      (''defaultTaskType'', JString ''personal''),
      (''sidebarCollapsed'', JBoolean False)]"

text \<open>
  The constructor returns the existing instance when there is one, and otherwise builds
  the manager with the default configuration.
\<close>

fun new_ConfigurationManager :: "ConfigurationManager option \<Rightarrow> ConfigurationManager" where
  "new_ConfigurationManager (Some inst) = inst"
| "new_ConfigurationManager None =
     \<lparr>config = default_config, config_proto = True, dispatched = []\<rparr>"

text \<open>
  \<open>obj[key] = value\<close> on the \<open>config\<close> object: an own property is overwritten; the
  inherited accessor \<open>__proto__\<close> takes the assignment for itself (null removes the
  prototype, a primitive value is ignored); any other key becomes a new own property.
  The result is the new prototype flag and the new own properties.
\<close>

fun set_property ::
  "bool \<Rightarrow> (string \<times> jsval) list \<Rightarrow> string \<Rightarrow> jsval \<Rightarrow> bool \<times> (string \<times> jsval) list" where
  "set_property proto obj key v =
     (case map_of obj key of
        Some old \<Rightarrow> (proto, AList.update key v obj)
      | None \<Rightarrow>
          if proto \<and> key = ''__proto__'' then (if v = JNull then (False, obj) else (proto, obj))
          else (proto, AList.update key v obj))"

definition getConfig :: "string \<Rightarrow> ConfigurationManager \<Rightarrow> jsval property option" where
  "getConfig key this = get_property (config_proto this) (config this) key"

definition notifyConfigChange ::
  "string \<Rightarrow> jsval \<Rightarrow> ConfigurationManager \<Rightarrow> ConfigurationManager" where
  "notifyConfigChange key v this = this\<lparr>dispatched := dispatched this @ [(key, v)]\<rparr>"

fun setConfig :: "string \<Rightarrow> jsval \<Rightarrow> ConfigurationManager \<Rightarrow> bool \<times> ConfigurationManager" where
  "setConfig key v this =
     (if has_property (config_proto this) (config this) key then
        (case set_property (config_proto this) (config this) key v of
           (proto, obj) \<Rightarrow>
             (True, notifyConfigChange key v (this\<lparr>config := obj, config_proto := proto\<rparr>)))
      else (False, this))"

definition getAllConfig :: "ConfigurationManager \<Rightarrow> (string \<times> jsval) list" where
  "getAllConfig this = config this"

definition resetToDefaults :: "ConfigurationManager \<Rightarrow> ConfigurationManager" where
  "resetToDefaults this =
     notifyConfigChange ''all'' JNull (this\<lparr>config := default_config, config_proto := True\<rparr>)"

text \<open>A run of \<open>setConfig\<close> calls, each answer dropped.\<close>

fun setConfig_all :: "(string \<times> jsval) list \<Rightarrow> ConfigurationManager \<Rightarrow> ConfigurationManager" where
  "setConfig_all [] this = this"
| "setConfig_all ((key, v) # calls) this = setConfig_all calls (snd (setConfig key v this))"

section \<open>Concrete inputs\<close>

text \<open>
  The scenario of the specification: the group Work holds the leaves A and B and the
  group Sub, which holds the leaf C.
\<close>

definition task_A :: task where
  "task_A = \<lparr>task_class = WorkTask, task_id = 1, task_title = ''A'', task_description = ''first'',
             task_status = ''Pendente'', task_createdAt = 100\<rparr>"

definition task_B :: task where
  "task_B = \<lparr>task_class = PersonalTask, task_id = 2, task_title = ''B'', task_description = ''second'',
             task_status = ''Conclu'' @ [CHR 0xED] @ ''da'', task_createdAt = 200\<rparr>"

definition task_C :: task where
  "task_C = \<lparr>task_class = StudyTask, task_id = 3, task_title = ''C'', task_description = ''third'',
             task_status = ''Pendente'', task_createdAt = 300\<rparr>"

definition group_Work :: component where
  "group_Work =
     TaskGroup 10 ''Work''
       [new_TaskLeaf task_A, new_TaskLeaf task_B,
        TaskGroup 11 ''Sub'' [new_TaskLeaf task_C] ''primary'' True 0]
       ''primary'' True 0"

text \<open>
  A tree as the factory and the task list build it: the groups take the ids 1, 2, 3 from
  the factory's counter, and the task with id 3 sits in the second group.
\<close>

definition group_Root :: component where
  "group_Root =
     TaskGroup 1 ''Root''
       [TaskGroup 2 ''Second'' [new_TaskLeaf task_C] ''primary'' True 0,
        TaskGroup 3 ''Third'' [] ''primary'' True 0]
       ''primary'' True 0"

text \<open>
  A stand-in for \<open>localeCompare\<close> in the examples: the order of the code units.
\<close>

fun compare_units :: "string \<Rightarrow> string \<Rightarrow> int" where
  "compare_units [] [] = 0"
| "compare_units [] (y # ys) = - 1"
| "compare_units (x # xs) [] = 1"
| "compare_units (x # xs) (y # ys) =
     (if (of_char x :: nat) < of_char y then - 1
      else if (of_char y :: nat) < of_char x then 1
      else compare_units xs ys)"

definition task_Banana :: task where
  "task_Banana = \<lparr>task_class = PersonalTask, task_id = 1, task_title = ''Banana'',
     task_description = ''Buy Milk'', task_status = ''Pendente'', task_createdAt = 100\<rparr>"

definition task_Apple :: task where
  "task_Apple = \<lparr>task_class = WorkTask, task_id = 2, task_title = ''Apple'',
     task_description = ''report'', task_status = ''Em Andamento'', task_createdAt = 200\<rparr>"

definition task_Shop :: task where
  "task_Shop = \<lparr>task_class = PersonalTask, task_id = 3, task_title = ''Shop'',
     task_description = ''groceries'', task_status = ''Pendente'', task_createdAt = 300\<rparr>"

definition task_Report :: task where
  "task_Report = \<lparr>task_class = WorkTask, task_id = 4, task_title = ''Report'',
     task_description = ''quarterly'', task_status = ''Pendente'', task_createdAt = 400\<rparr>"

section \<open>Properties of the composite tree\<close>

lemma fold_count_leaves:
  assumes "\<And>c. c \<in> set cs \<Longrightarrow> isComposite c \<Longrightarrow> getTaskCount c = length (getAllLeaves c)"
  shows "fold (\<lambda>child total. total + getTaskCount child) cs (length acc) =
         length (fold (\<lambda>child leaves.
             if isComposite child then leaves @ getAllLeaves child
             else leaves @ [child]) cs acc)"
  using assms
proof (induction cs arbitrary: acc)
  case Nil
  then show ?case by simp
next
  case (Cons c cs)
  show ?case
  proof (cases c)
    case (TaskLeaf i ttl t)
    then show ?thesis
      using Cons.IH [of "acc @ [c]"] Cons.prems by simp
  next
    case (TaskGroup i ttl ds color ex cr)
    then have "getTaskCount c = length (getAllLeaves c)"
      using Cons.prems [of c] by simp
    then show ?thesis
      using Cons.IH [of "acc @ getAllLeaves c"] Cons.prems TaskGroup by simp
  qed
qed

lemma count_is_leaves:
  "isComposite c \<Longrightarrow> getTaskCount c = length (getAllLeaves c)"
proof (induction c)
  case (TaskLeaf i ttl t)
  then show ?case by simp
next
  case (TaskGroup i ttl cs color ex cr)
  then show ?case
    using fold_count_leaves [of cs "[]"] by simp
qed

lemma member_ids_of_list:
  "c \<in> set cs \<Longrightarrow> getId c \<in> set (ids_of_list cs) \<and> set (descendant_ids c) \<subseteq> set (ids_of_list cs)"
  by (induction cs) auto

lemma ids_member_cases:
  "k \<in> set (ids_of_list cs) \<Longrightarrow> \<exists>c \<in> set cs. k = getId c \<or> k \<in> set (descendant_ids c)"
  by (induction cs) auto

lemma getChild_absent:
  "k \<notin> set (descendant_ids c) \<Longrightarrow> getChild k c = None"
  "k \<notin> set (ids_of_list cs) \<Longrightarrow> getChild_loop k cs = None"
  by (induction k c and k cs rule: getChild_getChild_loop.induct) auto

lemma filter_keeps_all:
  "length (filter P xs) = length xs \<Longrightarrow> filter P xs = xs"
proof (induction xs)
  case Nil
  then show ?case by simp
next
  case (Cons a xs)
  have "length (filter P xs) \<le> length xs" by simp
  with Cons show ?case by (cases "P a") auto
qed

lemma remove_group_no_direct:
  assumes "filter (\<lambda>child. getId child \<noteq> k) cs = cs"
  shows "remove k (TaskGroup i ttl cs color ex cr) =
         (fst (remove_loop k cs), TaskGroup i ttl (snd (remove_loop k cs)) color ex cr)"
  by (simp add: assms split: prod.splits)

lemma remove_group_direct:
  assumes "filter (\<lambda>child. getId child \<noteq> k) cs \<noteq> cs"
  shows "remove k (TaskGroup i ttl cs color ex cr) =
         (True, TaskGroup i ttl (filter (\<lambda>child. getId child \<noteq> k) cs) color ex cr)"
proof -
  have "length (filter (\<lambda>child. getId child \<noteq> k) cs) \<noteq> length cs"
    using assms filter_keeps_all by blast
  then show ?thesis by (simp only: remove.simps if_False)
qed

lemma remove_getId:
  "getId (snd (remove k c)) = getId c"
  by (cases c) (auto split: prod.splits)

lemma remove_true_present:
  "fst (remove k c) \<Longrightarrow> k \<in> set (descendant_ids c)"
  "fst (remove_loop k cs) \<Longrightarrow> k \<in> set (ids_of_list cs)"
proof (induction k c and k cs rule: remove_remove_loop.induct)
  case (1 k i ttl t)
  then show ?case by simp
next
  case (2 k i ttl cs color ex cr)
  show ?case
  proof (cases "filter (\<lambda>child. getId child \<noteq> k) cs = cs")
    case True
    then have "fst (remove_loop k cs)"
      using 2(2) by (simp only: remove_group_no_direct fst_conv)
    then have "k \<in> set (ids_of_list cs)"
      using 2(1) True by simp
    then show ?thesis by simp
  next
    case False
    then have "\<not> (\<forall>c \<in> set cs. getId c \<noteq> k)"
      by (simp only: filter_id_conv not_False_eq_True)
    then obtain c where "c \<in> set cs" "getId c = k" by blast
    then show ?thesis using member_ids_of_list [of c cs] by auto
  qed
next
  case (3 k)
  then show ?case by simp
next
  case (4 k child rest)
  then show ?case by (auto split: if_splits prod.splits)
qed

lemma direct_id_not_below:
  "distinct (ids_of_list cs) \<Longrightarrow> k \<in> getId ` set cs \<Longrightarrow> c' \<in> set cs \<Longrightarrow>
   k \<notin> set (descendant_ids c')"
proof (induction cs)
  case Nil
  then show ?case by simp
next
  case (Cons a cs)
  have d: "getId a \<notin> set (descendant_ids a)" "getId a \<notin> set (ids_of_list cs)"
    "distinct (ids_of_list cs)" "set (descendant_ids a) \<inter> set (ids_of_list cs) = {}"
    using Cons.prems(1) by auto
  show ?case
  proof (cases "k = getId a")
    case True
    show ?thesis
    proof (cases "c' = a")
      case True
      with \<open>k = getId a\<close> d show ?thesis by simp
    next
      case False
      then have "c' \<in> set cs" using Cons.prems(3) by simp
      then have "set (descendant_ids c') \<subseteq> set (ids_of_list cs)"
        using member_ids_of_list by blast
      with True d show ?thesis by blast
    qed
  next
    case False
    then have in_rest: "k \<in> getId ` set cs" using Cons.prems(2) by auto
    then have "k \<in> set (ids_of_list cs)" using member_ids_of_list by blast
    show ?thesis
    proof (cases "c' = a")
      case True
      with \<open>k \<in> set (ids_of_list cs)\<close> d show ?thesis by blast
    next
      case False
      then have "c' \<in> set cs" using Cons.prems(3) by simp
      then show ?thesis using Cons.IH [OF d(3) in_rest] by simp
    qed
  qed
qed

lemma remove_then_absent:
  "distinct (descendant_ids c) \<Longrightarrow> k \<notin> set (descendant_ids (snd (remove k c)))"
  "distinct (ids_of_list cs) \<Longrightarrow> k \<notin> getId ` set cs \<Longrightarrow>
     k \<notin> set (ids_of_list (snd (remove_loop k cs)))"
proof (induction k c and k cs rule: remove_remove_loop.induct)
  case (1 k i ttl t)
  then show ?case by simp
next
  case (2 k i ttl cs color ex cr)
  show ?case
  proof (cases "filter (\<lambda>child. getId child \<noteq> k) cs = cs")
    case True
    then have direct: "k \<notin> getId ` set cs" by (auto simp: filter_id_conv)
    have "k \<notin> set (ids_of_list (snd (remove_loop k cs)))"
      using 2(1) 2(2) direct True by simp
    then show ?thesis
      unfolding remove_group_no_direct [OF True] by simp
  next
    case False
    then have "\<not> (\<forall>c \<in> set cs. getId c \<noteq> k)"
      by (simp only: filter_id_conv not_False_eq_True)
    then have present: "k \<in> getId ` set cs" by auto
    have "k \<notin> set (ids_of_list (filter (\<lambda>child. getId child \<noteq> k) cs))"
    proof
      assume "k \<in> set (ids_of_list (filter (\<lambda>child. getId child \<noteq> k) cs))"
      then obtain c' where c': "c' \<in> set (filter (\<lambda>child. getId child \<noteq> k) cs)"
        and k: "k = getId c' \<or> k \<in> set (descendant_ids c')"
        using ids_member_cases by blast
      then have "c' \<in> set cs" "getId c' \<noteq> k" by auto
      with k direct_id_not_below [of cs k c'] 2(2) present show False by auto
    qed
    then show ?thesis
      unfolding remove_group_direct [OF False] by simp
  qed
next
  case (3 k)
  then show ?case by simp
next
  case (4 k child rest)
  show ?case
  proof (cases "isComposite child")
    case False
    then obtain i ttl t where "child = TaskLeaf i ttl t" by (cases child) auto
    with 4 False show ?thesis by (auto split: prod.splits)
  next
    case True
    obtain b child' where r: "remove k child = (b, child')" by (cases "remove k child")
    have d: "distinct (descendant_ids child)" "distinct (ids_of_list rest)"
      "set (descendant_ids child) \<inter> set (ids_of_list rest) = {}"
      using 4(4) by auto
    have c': "k \<notin> set (descendant_ids child')" using 4(1) [OF True] d r by simp
    have id': "getId child' = getId child" using remove_getId [of k child] r by simp
    show ?thesis
    proof (cases b)
      case True
      then have "k \<in> set (descendant_ids child)" using remove_true_present(1) [of k child] r by simp
      then have "k \<notin> set (ids_of_list rest)" using d by auto
      with True \<open>isComposite child\<close> r c' id' 4(5) show ?thesis by simp
    next
      case False
      then have "k \<notin> set (ids_of_list (snd (remove_loop k rest)))"
        using 4(2) [OF True r [symmetric]] d 4(5) by simp
      with False \<open>isComposite child\<close> r c' id' 4(5) show ?thesis by (auto split: prod.splits)
    qed
  qed
qed

text \<open>
  C1. For every TaskGroup, with any tree of leaves and groups below it, getTaskCount()
  equals the length of the list that getAllLeaves() returns; a TaskLeaf counts 1 and an
  empty TaskGroup counts 0.
\<close>

theorem getTaskCount_is_length_getAllLeaves:
  "(isComposite g \<longrightarrow> getTaskCount g = length (getAllLeaves g))
   \<and> getTaskCount (TaskLeaf i ttl t) = 1
   \<and> getTaskCount (TaskGroup j ttl' [] color ex cr) = 0"
  using count_is_leaves [of g] by simp

theorem getTaskCount_is_length_getAllLeaves_witness:
  "isComposite group_Work \<and> getTaskCount group_Work = 3 \<and> length (getAllLeaves group_Work) = 3"
  using getTaskCount_is_length_getAllLeaves [of group_Work]
  by (simp add: group_Work_def new_TaskLeaf_def)

text \<open>
  C2. For every tree whose components have pairwise different ids, and every id,
  remove(id) on the root followed by getChild(id) on the same root returns null. (This
  holds for the ids that occur in the tree, which the claim is about, and for the others.)
\<close>

theorem remove_then_getChild_null:
  "distinct (component_ids root) \<Longrightarrow> getChild k (snd (remove k root)) = None"
  using remove_then_absent(1) [of root k] getChild_absent(1) [of k "snd (remove k root)"]
  by (simp add: component_ids_def)

theorem remove_then_getChild_null_witness:
  "distinct (component_ids group_Work) \<and> 3 \<in> set (component_ids group_Work)
   \<and> fst (remove 3 group_Work)
   \<and> getChild 3 group_Work = Some (new_TaskLeaf task_C)
   \<and> getChild 3 (snd (remove 3 group_Work)) = None"
  using remove_then_getChild_null [of group_Work 3]
  by (simp add: group_Work_def new_TaskLeaf_def component_ids_def
      task_A_def task_B_def task_C_def Task_getId_def Task_getTitle_def)

text \<open>
  What \<open>getChild\<close> computes: the first component with the id in pre-order, null when
  there is none.
\<close>

lemma find_append_first:
  "find P (xs @ ys) = (case find P xs of Some x \<Rightarrow> Some x | None \<Rightarrow> find P ys)"
  by (induction xs) auto

lemma getChild_first_in_preorder:
  "getChild k c = find (\<lambda>x. getId x = k) (descendants c)"
  "getChild_loop k cs = find (\<lambda>x. getId x = k) (descendants_of_list cs)"
proof (induction k c and k cs rule: getChild_getChild_loop.induct)
  case (4 k child rest)
  show ?case
  proof (cases "isComposite child")
    case True
    with 4 show ?thesis by (auto simp: find_append_first split: option.splits)
  next
    case False
    then have "descendants child = []" by (cases child) auto
    with 4 False show ?thesis by simp
  qed
qed simp_all

text \<open>
  C5. The claim: getChild(id) compares all direct children first, and only then searches
  the child groups in sequence order. The code searches the subtree of each child group
  before it compares the next direct child: in the tree \<open>group_Root\<close> the third group
  made by the factory (id 3) is a direct child of the root, a leaf whose task has id 3
  lies in the group before it, and getChild(3) returns the leaf, where the search that
  the claim describes returns the group.
\<close>

theorem getChild_searches_subtree_before_sibling:
  "getChild 3 group_Root = Some (new_TaskLeaf task_C)
   \<and> getChild_direct_first 3 group_Root = Some (TaskGroup 3 ''Third'' [] ''primary'' True 0)"
  by (simp add: group_Root_def new_TaskLeaf_def task_C_def Task_getId_def Task_getTitle_def)

section \<open>Properties of the strategies and of process\<close>

lemma mset_insert_sorted: "mset (insert_sorted c x ys) = add_mset x (mset ys)"
  by (induction ys) auto

lemma mset_sorted_by: "mset (sorted_by c xs) = mset xs"
  by (induction xs) (auto simp: sorted_by_def mset_insert_sorted)

lemma filter_result:
  "\<exists>filtered h1. FilterStrategy_filter f h r = (filtered, h1) \<and> take (length h) h1 = h
     \<and> length h \<le> length h1 \<and> (r < length h \<longrightarrow> filtered < length h1)"
  by (cases f) (auto simp: Array_filter_def new_Array_def)

lemma sort_result:
  "SortStrategy_sort lc s h r = (length h, h @ [sorted_by (comparator lc s) (h ! r)])"
  by (simp add: SortStrategy_sort_def Array_spread_def new_Array_def Array_sort_def)

lemma process_frame:
  "take (length h) (snd (process lc this h tasks)) = h"
proof (cases "currentFilterStrategy this")
  case (Inherited name)
  then show ?thesis by simp
next
  case (Own f)
  obtain filtered h1 where f: "FilterStrategy_filter f h tasks = (filtered, h1)"
    and t: "take (length h) h1 = h" and l: "length h \<le> length h1"
    using filter_result [of f h tasks] by blast
  show ?thesis
  proof (cases "currentSortStrategy this")
    case (Inherited name)
    with Own f t show ?thesis by simp
  next
    case (Own s)
    have "take (length h) (h1 @ [sorted_by (comparator lc s) (h1 ! filtered)]) = h"
      using t l by simp
    with Own \<open>currentFilterStrategy this = Own f\<close> f show ?thesis
      by (simp add: sort_result)
  qed
qed

lemma process_Own:
  assumes "currentFilterStrategy this = Own f" "currentSortStrategy this = Own s"
    and "FilterStrategy_filter f h tasks = (filtered, h1)"
  shows "process lc this h tasks =
           (Inr (length h1), h1 @ [sorted_by (comparator lc s) (h1 ! filtered)])"
  using assms by (simp add: sort_result)

lemma split_nonempty: "String_split sep s \<noteq> []"
  by (induction s) (auto split: list.splits)

lemma split_hd_no_sep:
  "sep \<notin> set p \<Longrightarrow> String_split sep (p @ sep # rest) = p # String_split sep rest"
  by (induction p) (auto split: list.splits)

lemma hd_split: "hd (String_split sep s) = takeWhile (\<lambda>c. c \<noteq> sep) s"
  using split_nonempty [of sep] by (induction s) (auto split: list.splits)

lemma second_segment:
  "sep \<notin> set p \<Longrightarrow>
   Array_index (String_split sep (p @ sep # rest)) 1 = Some (takeWhile (\<lambda>c. c \<noteq> sep) rest)"
  using split_nonempty [of sep rest] hd_split [of sep rest]
  by (cases "String_split sep rest") (auto simp: split_hd_no_sep Array_index_def)

lemma includes_iff: "String_includes s x \<longleftrightarrow> sublist x s"
  by (induction s) (auto simp: sublist_Cons_right)

lemma search_key:
  "setFilterStrategy (''search:'' @ text) this =
     Inr (True, this\<lparr>currentFilterStrategy :=
            Own (SearchFilterStrategy (toLowerCase (takeWhile (\<lambda>c. c \<noteq> CHR '':'') text)))\<rparr>)"
proof -
  have "map_of filterStrategies (''search:'' @ text) = None"
    by (simp add: filterStrategies_def)
  moreover have "''search:'' @ text \<notin> set Object_prototype_keys"
    by (simp add: Object_prototype_keys_def)
  moreover have "Array_index (String_split CHR '':'' (''search'' @ CHR '':'' # text)) 1 =
      Some (takeWhile (\<lambda>c. c \<noteq> CHR '':'') text)"
    by (rule second_segment) simp
  ultimately show ?thesis
    by (simp add: String_startsWith_def)
qed

lemma type_key:
  "setFilterStrategy (''type:'' @ text) this =
     Inr (True, this\<lparr>currentFilterStrategy :=
            Own (TypeFilterStrategy (Some (takeWhile (\<lambda>c. c \<noteq> CHR '':'') text)))\<rparr>)"
proof -
  have "map_of filterStrategies (''type:'' @ text) = None"
    by (simp add: filterStrategies_def)
  moreover have "''type:'' @ text \<notin> set Object_prototype_keys"
    by (simp add: Object_prototype_keys_def)
  moreover have "Array_index (String_split CHR '':'' (''type'' @ CHR '':'' # text)) 1 =
      Some (takeWhile (\<lambda>c. c \<noteq> CHR '':'') text)"
    by (rule second_segment) simp
  ultimately show ?thesis
    by (simp add: String_startsWith_def)
qed

lemma getType_Trabalho: "Task_getType t = ''Trabalho'' \<longleftrightarrow> task_class t = WorkTask"
  by (cases "task_class t") simp_all

lemma getType_Work: "Task_getType t \<noteq> ''Work''"
  by (cases "task_class t") simp_all

lemma lower_unit_colon: "toLowerCase_unit c = CHR '':'' \<longleftrightarrow> c = CHR '':''"
proof
  assume "c = CHR '':''"
  then show "toLowerCase_unit c = CHR '':''" by (simp add: toLowerCase_unit_def)
next
  assume a: "toLowerCase_unit c = CHR '':''"
  show "c = CHR '':''"
  proof (rule ccontr)
    assume n: "c \<noteq> CHR '':''"
    with a have r: "(65 \<le> (of_char c :: nat) \<and> (of_char c :: nat) \<le> 90) \<or> (192 \<le> (of_char c :: nat) \<and> (of_char c :: nat) \<le> 214)
        \<or> (216 \<le> (of_char c :: nat) \<and> (of_char c :: nat) \<le> 222)"
      and e: "char_of ((of_char c :: nat) + 32) = CHR '':''"
      by (auto simp: toLowerCase_unit_def Let_def split: if_splits)
    from e have "(of_char (char_of ((of_char c :: nat) + 32) :: char) :: nat) = of_char CHR '':''" by simp
    then have "((of_char c :: nat) + 32) mod 256 = 58" by simp
    with r show False by (auto simp: mod_if split: if_splits)
  qed
qed

lemma lower_takeWhile:
  "toLowerCase (takeWhile (\<lambda>c. c \<noteq> CHR '':'') s) = takeWhile (\<lambda>c. c \<noteq> CHR '':'') (toLowerCase s)"
  by (induction s) (auto simp: toLowerCase_def lower_unit_colon)

lemma set_sorted_by: "set (sorted_by c xs) = set xs"
  using mset_sorted_by [of c xs] by (metis set_mset_mset)

text \<open>
  C3. With the filter strategy 'all' and the sort strategy of any registered sort key,
  process(tasks) returns an array whose elements are a permutation of the input's, and
  so of the same length.
\<close>

theorem process_all_is_permutation:
  assumes "currentFilterStrategy this = Own ShowAllFilterStrategy"
    and "(key, s) \<in> set sortStrategies" "currentSortStrategy this = Own s"
    and "tasks < length h"
  shows "\<exists>sorted h2. process lc this h tasks = (Inr sorted, h2)
           \<and> mset (h2 ! sorted) = mset (h ! tasks)
           \<and> length (h2 ! sorted) = length (h ! tasks)"
proof -
  have p: "process lc this h tasks =
             (Inr (length h), h @ [sorted_by (comparator lc s) (h ! tasks)])"
    using assms(1,3) by (simp add: sort_result)
  have m: "mset (sorted_by (comparator lc s) (h ! tasks)) = mset (h ! tasks)"
    by (rule mset_sorted_by)
  then have "length (sorted_by (comparator lc s) (h ! tasks)) = length (h ! tasks)"
    by (rule mset_eq_length)
  with p m show ?thesis by simp
qed

theorem process_all_is_permutation_witness:
  "setFilterStrategy ''all'' new_TaskSorterFilterer = Inr (True, new_TaskSorterFilterer)
   \<and> setSortStrategy ''alpha-az'' new_TaskSorterFilterer =
       (True, new_TaskSorterFilterer\<lparr>currentSortStrategy := Own AlphabeticalAZStrategy\<rparr>)
   \<and> process compare_units (new_TaskSorterFilterer\<lparr>currentSortStrategy := Own AlphabeticalAZStrategy\<rparr>)
         [[task_Banana, task_Apple]] 0
       = (Inr 1, [[task_Banana, task_Apple], [task_Apple, task_Banana]])
   \<and> mset [task_Apple, task_Banana] = mset ([[task_Banana, task_Apple]] ! 0)"
  using process_all_is_permutation
    [of "new_TaskSorterFilterer\<lparr>currentSortStrategy := Own AlphabeticalAZStrategy\<rparr>"
        "''alpha-az''" AlphabeticalAZStrategy 0 "[[task_Banana, task_Apple]]" compare_units]
  by (simp add: new_TaskSorterFilterer_def filterStrategies_def sortStrategies_def
      SortStrategy_sort_def Array_spread_def new_Array_def Array_sort_def sorted_by_def
      SortCompare_def Task_getTitle_def task_Banana_def task_Apple_def)

text \<open>
  C6. process(tasks) applies the filter strategy and then the sort strategy to what the
  filter returned; the array it returns is a new one; and no array that existed before
  the call is changed, the input least of all. The first conjunct holds whatever the
  current strategies are, also when the call ends in a TypeError.
\<close>

theorem process_filters_then_sorts_into_new_array:
  "take (length h) (snd (process lc this h tasks)) = h
   \<and> (currentFilterStrategy this = Own f \<and> currentSortStrategy this = Own s \<and> tasks < length h
        \<longrightarrow> (\<exists>filtered h1 sorted h2.
               FilterStrategy_filter f h tasks = (filtered, h1)
             \<and> SortStrategy_sort lc s h1 filtered = (sorted, h2)
             \<and> process lc this h tasks = (Inr sorted, h2)
             \<and> length h \<le> sorted \<and> sorted < length h2
             \<and> h2 ! tasks = h ! tasks
             \<and> h2 ! sorted = sorted_by (comparator lc s) (h1 ! filtered)))"
proof (intro conjI impI)
  show "take (length h) (snd (process lc this h tasks)) = h" by (rule process_frame)
next
  assume a: "currentFilterStrategy this = Own f \<and> currentSortStrategy this = Own s \<and> tasks < length h"
  obtain filtered h1 where f: "FilterStrategy_filter f h tasks = (filtered, h1)"
    and t: "take (length h) h1 = h" and l: "length h \<le> length h1"
    using filter_result [of f h tasks] by blast
  have p: "process lc this h tasks =
             (Inr (length h1), h1 @ [sorted_by (comparator lc s) (h1 ! filtered)])"
    using a f by (simp add: sort_result)
  have "h1 ! tasks = take (length h) h1 ! tasks" using a by simp
  then have same: "h1 ! tasks = h ! tasks" using t by simp
  have "(h1 @ [sorted_by (comparator lc s) (h1 ! filtered)]) ! tasks = h ! tasks"
    using same a l by (simp add: nth_append)
  with f p l show "\<exists>filtered h1 sorted h2.
               FilterStrategy_filter f h tasks = (filtered, h1)
             \<and> SortStrategy_sort lc s h1 filtered = (sorted, h2)
             \<and> process lc this h tasks = (Inr sorted, h2)
             \<and> length h \<le> sorted \<and> sorted < length h2
             \<and> h2 ! tasks = h ! tasks
             \<and> h2 ! sorted = sorted_by (comparator lc s) (h1 ! filtered)"
    by (simp add: sort_result)
qed

theorem process_filters_then_sorts_into_new_array_witness:
  "FilterStrategy_filter PendingFilterStrategy [[task_Shop, task_Apple, task_Banana]] 0
     = (1, [[task_Shop, task_Apple, task_Banana], [task_Shop, task_Banana]])
   \<and> process compare_units
        \<lparr>currentSortStrategy = Own AlphabeticalAZStrategy,
         currentFilterStrategy = Own PendingFilterStrategy\<rparr>
        [[task_Shop, task_Apple, task_Banana]] 0
     = (Inr 2, [[task_Shop, task_Apple, task_Banana], [task_Shop, task_Banana],
                [task_Banana, task_Shop]])"
  using process_filters_then_sorts_into_new_array
    [of "[[task_Shop, task_Apple, task_Banana]]" compare_units
        "\<lparr>currentSortStrategy = Own AlphabeticalAZStrategy,
          currentFilterStrategy = Own PendingFilterStrategy\<rparr>" 0
        PendingFilterStrategy AlphabeticalAZStrategy]
  by (simp add: SortStrategy_sort_def Array_spread_def new_Array_def Array_sort_def
      Array_filter_def sorted_by_def SortCompare_def Task_getTitle_def Task_getStatus_def
      task_Banana_def task_Apple_def task_Shop_def)

text \<open>
  C9. After the filter key "type:Work" is selected, process returns only tasks of the
  input whose category is Work, and no task whose category is Personal (the task titled
  "Shop" of the scenario). The type filter compares the suffix of the key with the label
  that getType() returns; the label of a Work task in the source is 'Trabalho', so the
  key "type:Trabalho" returns exactly the Work tasks, and the key "type:Work", whose
  suffix is no label, returns no task at all.
\<close>

theorem type_Work_filter_keeps_only_Work:
  assumes "key = ''type:Work'' \<or> key = ''type:Trabalho''"
    and "currentSortStrategy this = Own s" "tasks < length h"
  shows "\<exists>this' sorted h2.
           setFilterStrategy key this = Inr (True, this')
         \<and> process lc this' h tasks = (Inr sorted, h2)
         \<and> (\<forall>t \<in> set (h2 ! sorted). t \<in> set (h ! tasks) \<and> task_class t = WorkTask)
         \<and> (\<forall>t \<in> set (h ! tasks). task_class t = PersonalTask \<longrightarrow> t \<notin> set (h2 ! sorted))
         \<and> (key = ''type:Trabalho'' \<longrightarrow>
               set (h2 ! sorted) = {t \<in> set (h ! tasks). task_class t = WorkTask})"
proof -
  obtain label where key: "key = ''type:'' @ label" and label: "label = ''Work'' \<or> label = ''Trabalho''"
    and tw: "takeWhile (\<lambda>c. c \<noteq> CHR '':'') label = label"
    using assms(1) by auto
  let ?this' = "this\<lparr>currentFilterStrategy := Own (TypeFilterStrategy (Some label))\<rparr>"
  have set: "setFilterStrategy key this = Inr (True, ?this')"
    unfolding key using type_key [of label this] tw by (simp only:)
  let ?kept = "filter (\<lambda>t. Some (Task_getType t) = Some label) (h ! tasks)"
  have f: "FilterStrategy_filter (TypeFilterStrategy (Some label)) h tasks = (length h, h @ [?kept])"
    by (simp add: Array_filter_def new_Array_def)
  have p: "process lc ?this' h tasks =
             (Inr (Suc (length h)), (h @ [?kept]) @ [sorted_by (comparator lc s) ?kept])"
    using process_Own [of ?this' "TypeFilterStrategy (Some label)" s h tasks "length h" "h @ [?kept]" lc]
      f assms(2) by simp
  have content: "((h @ [?kept]) @ [sorted_by (comparator lc s) ?kept]) ! Suc (length h)
                 = sorted_by (comparator lc s) ?kept"
    by (simp add: nth_append)
  have members: "set (sorted_by (comparator lc s) ?kept) =
                 {t \<in> set (h ! tasks). Task_getType t = label}"
    by (auto simp: set_sorted_by)
  have only_work: "Task_getType t = label \<Longrightarrow> task_class t = WorkTask" for t
    using label getType_Work [of t] getType_Trabalho [of t] by auto
  have not_personal: "task_class t = PersonalTask \<Longrightarrow> Task_getType t \<noteq> label" for t
    using only_work [of t] by auto
  have exact: "key = ''type:Trabalho'' \<Longrightarrow>
     {t \<in> set (h ! tasks). Task_getType t = label} = {t \<in> set (h ! tasks). task_class t = WorkTask}"
    using key getType_Trabalho by auto
  show ?thesis
    apply (rule exI [of _ ?this'])
    apply (rule exI [of _ "Suc (length h)"])
    apply (rule exI [of _ "(h @ [?kept]) @ [sorted_by (comparator lc s) ?kept]"])
    unfolding content members
    using set p only_work not_personal exact by auto
qed

theorem type_Work_filter_keeps_only_Work_witness:
  "setFilterStrategy ''type:Trabalho'' new_TaskSorterFilterer =
     Inr (True, new_TaskSorterFilterer\<lparr>currentFilterStrategy := Own (TypeFilterStrategy (Some ''Trabalho''))\<rparr>)
   \<and> process compare_units
        (new_TaskSorterFilterer\<lparr>currentFilterStrategy := Own (TypeFilterStrategy (Some ''Trabalho''))\<rparr>)
        [[task_Shop, task_Report]] 0
       = (Inr 2, [[task_Shop, task_Report], [task_Report], [task_Report]])
   \<and> setFilterStrategy ''type:Work'' new_TaskSorterFilterer =
     Inr (True, new_TaskSorterFilterer\<lparr>currentFilterStrategy := Own (TypeFilterStrategy (Some ''Work''))\<rparr>)
   \<and> process compare_units
        (new_TaskSorterFilterer\<lparr>currentFilterStrategy := Own (TypeFilterStrategy (Some ''Work''))\<rparr>)
        [[task_Shop, task_Report]] 0
       = (Inr 2, [[task_Shop, task_Report], [], []])
   \<and> task_class task_Report = WorkTask \<and> task_class task_Shop = PersonalTask"
  using type_Work_filter_keeps_only_Work
    [of "''type:Trabalho''" new_TaskSorterFilterer DateNewestFirstStrategy 0
        "[[task_Shop, task_Report]]" compare_units]
  by (simp add: new_TaskSorterFilterer_def filterStrategies_def Object_prototype_keys_def
      String_startsWith_def Array_index_def
      SortStrategy_sort_def Array_spread_def new_Array_def Array_sort_def Array_filter_def
      sorted_by_def SortCompare_def task_Shop_def task_Report_def)

text \<open>
  C10. setFilterStrategy("search:<text>") installs a search filter whose text is the
  part of the key between the first ':' and the second (or the end), lowercased; two keys
  whose texts differ in case only install the same filter; and the filter keeps a task
  exactly when that text occurs in the lowercased title or the lowercased description.
\<close>

theorem search_key_installs_case_insensitive_filter:
  "setFilterStrategy (''search:'' @ text) this =
     Inr (True, this\<lparr>currentFilterStrategy :=
            Own (SearchFilterStrategy (toLowerCase (takeWhile (\<lambda>c. c \<noteq> CHR '':'') text)))\<rparr>)
   \<and> (toLowerCase text = toLowerCase text' \<longrightarrow>
        setFilterStrategy (''search:'' @ text) this = setFilterStrategy (''search:'' @ text') this)
   \<and> FilterStrategy_filter (SearchFilterStrategy q) h tasks =
       (length h,
        h @ [filter (\<lambda>t. sublist q (toLowerCase (Task_getTitle t))
                        \<or> sublist q (toLowerCase (Task_getDescription t))) (h ! tasks)])"
proof (intro conjI impI)
  show "setFilterStrategy (''search:'' @ text) this =
     Inr (True, this\<lparr>currentFilterStrategy :=
            Own (SearchFilterStrategy (toLowerCase (takeWhile (\<lambda>c. c \<noteq> CHR '':'') text)))\<rparr>)"
    by (rule search_key)
next
  assume "toLowerCase text = toLowerCase text'"
  then have "toLowerCase (takeWhile (\<lambda>c. c \<noteq> CHR '':'') text) =
             toLowerCase (takeWhile (\<lambda>c. c \<noteq> CHR '':'') text')"
    by (simp only: lower_takeWhile)
  then show "setFilterStrategy (''search:'' @ text) this = setFilterStrategy (''search:'' @ text') this"
    by (simp only: search_key)
next
  show "FilterStrategy_filter (SearchFilterStrategy q) h tasks =
       (length h,
        h @ [filter (\<lambda>t. sublist q (toLowerCase (Task_getTitle t))
                        \<or> sublist q (toLowerCase (Task_getDescription t))) (h ! tasks)])"
  proof -
    have "search_matches q =
          (\<lambda>t. sublist q (toLowerCase (Task_getTitle t))
                \<or> sublist q (toLowerCase (Task_getDescription t)))"
      by (rule ext) (simp add: search_matches_def includes_iff)
    then show ?thesis by (simp add: Array_filter_def new_Array_def)
  qed
qed

theorem search_key_installs_case_insensitive_filter_witness:
  "setFilterStrategy ''search:MILK:eggs'' new_TaskSorterFilterer =
     Inr (True, new_TaskSorterFilterer\<lparr>currentFilterStrategy := Own (SearchFilterStrategy ''milk'')\<rparr>)
   \<and> setFilterStrategy ''search:Milk'' new_TaskSorterFilterer =
       setFilterStrategy ''search:mILK'' new_TaskSorterFilterer
   \<and> FilterStrategy_filter (SearchFilterStrategy ''milk'') [[task_Apple, task_Banana]] 0 =
       (1, [[task_Apple, task_Banana], [task_Banana]])"
proof -
  have low: "toLowerCase (takeWhile (\<lambda>c. c \<noteq> CHR '':'') ''MILK:eggs'') = ''milk''"
    by code_simp
  have same: "toLowerCase ''Milk'' = toLowerCase ''mILK''"
    by code_simp
  have keep: "filter (\<lambda>t. sublist ''milk'' (toLowerCase (Task_getTitle t))
                        \<or> sublist ''milk'' (toLowerCase (Task_getDescription t)))
               ([[task_Apple, task_Banana]] ! 0) = [task_Banana]"
    by code_simp
  note t = search_key_installs_case_insensitive_filter
  from t [of "''MILK:eggs''" new_TaskSorterFilterer]
  have 1: "setFilterStrategy ''search:MILK:eggs'' new_TaskSorterFilterer =
     Inr (True, new_TaskSorterFilterer\<lparr>currentFilterStrategy := Own (SearchFilterStrategy ''milk'')\<rparr>)"
    unfolding low by (simp del: setFilterStrategy.simps)
  from t [of "''Milk''" new_TaskSorterFilterer "''mILK''", THEN conjunct2, THEN conjunct1,
          THEN mp, OF same]
  have 2: "setFilterStrategy ''search:Milk'' new_TaskSorterFilterer =
       setFilterStrategy ''search:mILK'' new_TaskSorterFilterer"
    by (simp del: setFilterStrategy.simps)
  from t [of _ _ _ "''milk''" "[[task_Apple, task_Banana]]" 0]
  have 3: "FilterStrategy_filter (SearchFilterStrategy ''milk'') [[task_Apple, task_Banana]] 0 =
       (1, [[task_Apple, task_Banana], [task_Banana]])"
    unfolding keep by simp
  from 1 2 3 show ?thesis by simp
qed

text \<open>
  C4, as amended. For a key that is not the name of a member of Object.prototype:
  setSortStrategy(key) succeeds exactly when the key is in the sort registry, and on
  failure leaves the context unchanged; setFilterStrategy(key) succeeds exactly when the
  key is in the filter registry or starts with "type:" or "search:", and on failure
  leaves the context unchanged.
\<close>

theorem set_strategy_succeeds_iff_known:
  assumes "key \<notin> set Object_prototype_keys"
  shows "(fst (setSortStrategy key this) \<longleftrightarrow> key \<in> fst ` set sortStrategies)
       \<and> (\<not> fst (setSortStrategy key this) \<longrightarrow> snd (setSortStrategy key this) = this)
       \<and> (\<exists>ok this'. setFilterStrategy key this = Inr (ok, this')
            \<and> (ok \<longleftrightarrow> key \<in> fst ` set filterStrategies
                       \<or> String_startsWith key ''type:'' \<or> String_startsWith key ''search:'')
            \<and> (\<not> ok \<longrightarrow> this' = this))"
proof (intro conjI)
  show "fst (setSortStrategy key this) \<longleftrightarrow> key \<in> fst ` set sortStrategies"
  proof (cases "map_of sortStrategies key")
    case None
    then have "key \<notin> fst ` set sortStrategies" by (simp add: map_of_eq_None_iff)
    with None assms show ?thesis by simp
  next
    case (Some s)
    then have "key \<in> fst ` set sortStrategies"
      using map_of_SomeD [of sortStrategies key s] by force
    with Some show ?thesis by simp
  qed
  show "\<not> fst (setSortStrategy key this) \<longrightarrow> snd (setSortStrategy key this) = this"
    by (auto split: option.splits)
  show "\<exists>ok this'. setFilterStrategy key this = Inr (ok, this')
            \<and> (ok \<longleftrightarrow> key \<in> fst ` set filterStrategies
                       \<or> String_startsWith key ''type:'' \<or> String_startsWith key ''search:'')
            \<and> (\<not> ok \<longrightarrow> this' = this)"
  proof (cases "map_of filterStrategies key")
    case (Some f)
    then have "key \<in> fst ` set filterStrategies"
      using map_of_SomeD [of filterStrategies key f] by force
    with Some show ?thesis by auto
  next
    case None
    then have not_reg: "key \<notin> fst ` set filterStrategies" by (simp add: map_of_eq_None_iff)
    have g: "get_property True filterStrategies key = None" using None assms by simp
    show ?thesis
    proof (cases "String_startsWith key ''type:''")
      case True
      with g show ?thesis by auto
    next
      case False
      show ?thesis
      proof (cases "String_startsWith key ''search:''")
        case True
        then obtain searchText where "key = ''search:'' @ searchText"
          by (auto simp: String_startsWith_def prefix_def)
        then show ?thesis using search_key [of searchText this] True by (auto simp del: setFilterStrategy.simps)
      next
        case False
        with g \<open>\<not> String_startsWith key ''type:''\<close> not_reg show ?thesis by auto
      qed
    qed
  qed
qed

theorem set_strategy_succeeds_iff_known_witness:
  "''priority'' \<notin> set Object_prototype_keys
   \<and> setSortStrategy ''priority'' new_TaskSorterFilterer = (False, new_TaskSorterFilterer)
   \<and> setFilterStrategy ''priority'' new_TaskSorterFilterer = Inr (False, new_TaskSorterFilterer)
   \<and> setSortStrategy ''type'' new_TaskSorterFilterer =
       (True, new_TaskSorterFilterer\<lparr>currentSortStrategy := Own TaskTypeStrategy\<rparr>)"
  using set_strategy_succeeds_iff_known [of "''priority''" new_TaskSorterFilterer]
  by (simp add: Object_prototype_keys_def sortStrategies_def filterStrategies_def
      String_startsWith_def)

text \<open>
  C4, as stated, fails: "type:Work" is not a key of the filter registry, and
  setFilterStrategy accepts it and replaces the current filter strategy.
\<close>

theorem unknown_filter_key_accepted_counterexample:
  "''type:Work'' \<notin> fst ` set filterStrategies
   \<and> setFilterStrategy ''type:Work'' new_TaskSorterFilterer =
       Inr (True, new_TaskSorterFilterer\<lparr>currentFilterStrategy := Own (TypeFilterStrategy (Some ''Work''))\<rparr>)
   \<and> new_TaskSorterFilterer\<lparr>currentFilterStrategy := Own (TypeFilterStrategy (Some ''Work''))\<rparr>
       \<noteq> new_TaskSorterFilterer"
  by (simp add: filterStrategies_def Object_prototype_keys_def String_startsWith_def
      Array_index_def new_TaskSorterFilterer_def)

section \<open>Properties of the configuration store\<close>

text \<open>
  C7. The claim: setConfig(key, value) succeeds only for the nine keys of the default
  configuration. The guard of the code is \<open>key in this.config\<close>, which is also true of
  the members the object inherits: setConfig("toString", "x") on the fresh manager
  answers true, adds a tenth own property and dispatches the event.
\<close>

theorem setConfig_accepts_inherited_key:
  "''toString'' \<notin> fst ` set default_config
   \<and> setConfig ''toString'' (JString ''x'') (new_ConfigurationManager None) =
       (True, \<lparr>config = default_config @ [(''toString'', JString ''x'')],
               config_proto = True,
               dispatched = [(''toString'', JString ''x'')]\<rparr>)"
  by (simp add: default_config_def Object_prototype_keys_def notifyConfigChange_def)

text \<open>
  C8. After resetToDefaults(), getConfig returns the documented default of each of the
  nine default keys, whatever setConfig calls came before (and whatever the state was),
  and the configuration has the nine default keys only.
\<close>

theorem resetToDefaults_restores_defaults:
  "getConfig ''theme'' (resetToDefaults (setConfig_all calls this)) = Some (Own (JString ''light''))
   \<and> getConfig ''language'' (resetToDefaults (setConfig_all calls this)) = Some (Own (JString ''pt-BR''))
   \<and> getConfig ''showCompletedTasks'' (resetToDefaults (setConfig_all calls this)) = Some (Own (JBoolean True))
   \<and> getConfig ''autoSave'' (resetToDefaults (setConfig_all calls this)) = Some (Own (JBoolean True))
   \<and> getConfig ''notificationTimeout'' (resetToDefaults (setConfig_all calls this)) = Some (Own (JNumber 3000))
   \<and> getConfig ''maxNotificationsHistory'' (resetToDefaults (setConfig_all calls this)) = Some (Own (JNumber 10))
   \<and> getConfig ''defaultTaskColor'' (resetToDefaults (setConfig_all calls this)) = Some (Own (JString ''blue''))
   \<and> getConfig ''defaultTaskType'' (resetToDefaults (setConfig_all calls this)) = Some (Own (JString ''personal''))
   \<and> getConfig ''sidebarCollapsed'' (resetToDefaults (setConfig_all calls this)) = Some (Own (JBoolean False))
   \<and> map fst (getAllConfig (resetToDefaults (setConfig_all calls this))) =
       [''theme'', ''language'', ''showCompletedTasks'', ''autoSave'', ''notificationTimeout'',
        ''maxNotificationsHistory'', ''defaultTaskColor'', ''defaultTaskType'', ''sidebarCollapsed'']"
  by (simp add: getConfig_def resetToDefaults_def notifyConfigChange_def default_config_def
      getAllConfig_def)

theorem resetToDefaults_restores_defaults_witness:
  "getConfig ''theme''
     (setConfig_all [(''theme'', JString ''dark''), (''__proto__'', JNull), (''autoSave'', JNumber 0)]
        (new_ConfigurationManager None)) = Some (Own (JString ''dark''))
   \<and> getConfig ''theme''
     (resetToDefaults
       (setConfig_all [(''theme'', JString ''dark''), (''__proto__'', JNull), (''autoSave'', JNumber 0)]
          (new_ConfigurationManager None))) = Some (Own (JString ''light''))
   \<and> getConfig ''autoSave''
     (resetToDefaults
       (setConfig_all [(''theme'', JString ''dark''), (''__proto__'', JNull), (''autoSave'', JNumber 0)]
          (new_ConfigurationManager None))) = Some (Own (JBoolean True))"
  using resetToDefaults_restores_defaults
    [of "[(''theme'', JString ''dark''), (''__proto__'', JNull), (''autoSave'', JNumber 0)]"
        "new_ConfigurationManager None"]
  by (simp add: getConfig_def notifyConfigChange_def default_config_def Object_prototype_keys_def)

end
